theory Spec2Isabelle
  imports Main "HOL-Library.Word"
begin

section \<open>The DynamoDB key store of rkms (dynamodb_store.go)\<close>

text \<open>
  The store keeps, for an identifier, a map from key names to encrypted data keys. It reads
  through an in-memory cache (\<open>keysCache\<close>) and writes with a conditional insert
  (\<open>attribute_not_exists(id)\<close>) into one DynamoDB table.

  The two methods \<open>GetEncryptedDataKeys\<close> and \<open>SetEncryptedDataKeysConditionally\<close> are
  translated statement by statement. What they call but the repository does not contain
  (the DynamoDB service, the attribute marshaller, the cache library's expiry rule) is either
  a parameter of the model or a small definition documented as such.
\<close>

subsection \<open>Values\<close>

text \<open>
  A Go \<open>map[string]string\<close>: \<open>None\<close> is the nil map, \<open>Some m\<close> a map value. The methods
  never change a map they are given, so a map is modelled by its contents.
\<close>

type_synonym gomap = "(string \<rightharpoonup> string) option"

text \<open>The struct \<open>item\<close> (lines 23-26).\<close>

record item =
  ID :: string
  Keys :: gomap

text \<open>
  \<open>dynamodb.AttributeValue\<close>: the source builds \<open>{S: id}\<close> for the key of a read; the other
  shapes are whatever the marshaller produces. An item sent to or returned by the service is a
  \<open>map[string]*dynamodb.AttributeValue\<close>.
\<close>

datatype AttributeValue =
    S string
  | N string
  | BOOL bool
  | NULL
  | L "AttributeValue list"
  | M "string \<Rightarrow> AttributeValue option"

type_synonym Item = "string \<rightharpoonup> AttributeValue"

text \<open>
  Go \<open>error\<close> values: an \<open>awserr.Error\<close> with its code and message, any other error, and the
  store's own \<open>IDAlreadyExistsStoreError{ID}\<close>.

  Modelled from the spec: the type \<open>IDAlreadyExistsStoreError\<close> is declared outside the sources;
  the spec describes it as the already-exists error carrying the identifier, and the source
  builds it from the identifier alone.
\<close>

datatype error =
    AwsError string string
  | OtherError string
  | IDAlreadyExistsStoreError string

definition ErrCodeConditionalCheckFailedException :: string where
  "ErrCodeConditionalCheckFailedException = ''ConditionalCheckFailedException''"

subsection \<open>Collaborators taken as parameters\<close>

text \<open>
  \<open>MarshalMap\<close> and \<open>UnmarshalMap\<close> are \<open>dynamodbattribute.MarshalMap\<close> and
  \<open>dynamodbattribute.UnmarshalMap\<close>: the first returns an attribute map and an error, the
  second an error or the decoded \<open>item\<close>. \<open>expired d t now\<close> is the cache library's decision
  that an entry stored at time \<open>t\<close> in a cache of default expiration \<open>d\<close> is no longer
  served at time \<open>now\<close>. Every theorem below holds for all three, or names what it needs of them.
\<close>

record env =
  MarshalMap :: "item \<Rightarrow> Item \<times> error option"
  UnmarshalMap :: "Item \<Rightarrow> error + item"
  expired :: "64 word \<Rightarrow> int \<Rightarrow> int \<Rightarrow> bool"

subsection \<open>The cache\<close>

text \<open>
  Modelled from the spec: the cache library (\<open>cache.New\<close>, \<open>Get\<close>, \<open>Set\<close>) is not part of the
  sources. Following the spec, it is a map from identifiers to values, each entry created by
  \<open>Set\<close> under the default time-to-live and ignored by \<open>Get\<close> once expired. An entry keeps
  the time it was stored at; the expiry rule itself is the parameter \<open>expired\<close>.
\<close>

record Cache =
  defaultExpiration :: "64 word"
  cleanupInterval :: "64 word"
  items :: "string \<rightharpoonup> (gomap \<times> int)"

definition cache_New :: "64 word \<Rightarrow> 64 word \<Rightarrow> Cache" where
  "cache_New de ci = \<lparr>defaultExpiration = de, cleanupInterval = ci, items = Map.empty\<rparr>"

definition cache_Get :: "env \<Rightarrow> Cache \<Rightarrow> int \<Rightarrow> string \<Rightarrow> gomap option" where
  "cache_Get E c now k =
     (case items c k of
        None \<Rightarrow> None
      | Some (x, t) \<Rightarrow> if expired E (defaultExpiration c) t now then None else Some x)"

definition cache_Set :: "Cache \<Rightarrow> int \<Rightarrow> string \<Rightarrow> gomap \<Rightarrow> Cache" where
  "cache_Set c now k x = c\<lparr>items := (items c)(k \<mapsto> (x, now))\<rparr>"

subsection \<open>The DynamoDB table\<close>

text \<open>
  Modelled from the spec: the DynamoDB service is the external durable store. Following the
  spec's contract, it offers a strongly consistent point read, for which an absent record is not
  an error, and an atomic insert that succeeds only if no record has the identifier and reports
  that case apart from every other failure. The table maps the value of the key attribute
  \<open>id\<close> to the stored item; an item without such an attribute cannot be filed and is refused.
  \<open>fault\<close> is the failure of the request itself (network, throttling, cancelled context),
  \<open>None\<close> when the request reaches the table; a request that fails leaves the table as it was.
\<close>

definition item_key :: "Item \<Rightarrow> string option" where
  "item_key it = (case it ''id'' of Some (S k) \<Rightarrow> Some k | _ \<Rightarrow> None)"

definition GetItemWithContext ::
  "error option \<Rightarrow> (string \<rightharpoonup> Item) \<Rightarrow> string \<Rightarrow> error + Item option" where
  "GetItemWithContext fault tbl k =
     (case fault of Some e \<Rightarrow> Inl e | None \<Rightarrow> Inr (tbl k))"

text \<open>\<open>PutItemWithContext\<close> under the condition expression \<open>attribute_not_exists(id)\<close>.\<close>

definition PutItemWithContext ::
  "error option \<Rightarrow> (string \<rightharpoonup> Item) \<Rightarrow> Item \<Rightarrow> error option \<times> (string \<rightharpoonup> Item)" where
  "PutItemWithContext fault tbl it =
     (case fault of
        Some e \<Rightarrow> (Some e, tbl)
      | None \<Rightarrow>
          (case item_key it of
             None \<Rightarrow> (Some (AwsError ''ValidationException'' ''missing key id''), tbl)
           | Some k \<Rightarrow>
               if tbl k \<noteq> None
               then (Some (AwsError ErrCodeConditionalCheckFailedException
                             ''The conditional request failed''), tbl)
               else (None, tbl(k \<mapsto> it))))"

subsection \<open>The store\<close>

text \<open>
  The struct \<open>DynamoDBStore\<close> (lines 17-21). The field \<open>client\<close> is the handle to the remote
  table: the model holds the table's contents (\<open>table\<close>) and the requests sent through the
  client so far (\<open>requests\<close>).
\<close>

datatype request = GetItemInput string | PutItemInput Item

record DynamoDBStore =
  tableName :: string
  keysCache :: Cache
  table :: "string \<rightharpoonup> Item"
  requests :: "request list"

text \<open>
  Modelled from the spec: the type \<open>DynamoDBConfig\<close> is declared outside the sources. The spec
  lists the cache's time-to-live, its cleanup interval and the backend's configuration; the
  fields are the ones the constructor reads. \<open>time.Duration(n) * time.Minute\<close> is a 64-bit
  product of nanoseconds, which wraps around.
\<close>

record DynamoDBConfig =
  Region :: string
  TableName :: string
  CacheExpiration :: int
  CacheCleanupInterval :: int

definition Minute :: "64 word" where
  "Minute = 60000000000"

text \<open>
  \<open>NewDynamoDBStore\<close> (lines 29-42). \<open>sess\<close> is the error of \<open>session.NewSession\<close>, if any;
  \<open>tbl\<close> is the content of the remote table when the store is created.
\<close>

definition NewDynamoDBStore ::
  "DynamoDBConfig \<Rightarrow> error option \<Rightarrow> (string \<rightharpoonup> Item) \<Rightarrow> error + DynamoDBStore" where
  "NewDynamoDBStore dynamoDBConfig sess tbl =
     (case sess of
        Some err \<Rightarrow> Inl err
      | None \<Rightarrow>
          Inr \<lparr>tableName = TableName dynamoDBConfig,
               keysCache = cache_New (word_of_int (CacheExpiration dynamoDBConfig) * Minute)
                                     (word_of_int (CacheCleanupInterval dynamoDBConfig) * Minute),
               table = tbl,
               requests = []\<rparr>)"

text \<open>
  \<open>GetEncryptedDataKeys\<close> (lines 45-80). The result is the pair \<open>(map, error)\<close> the method
  returns, with the store after the call. \<open>now\<close> is the time of the call.
\<close>

definition GetEncryptedDataKeys ::
  "env \<Rightarrow> error option \<Rightarrow> int \<Rightarrow> DynamoDBStore \<Rightarrow> string
     \<Rightarrow> (gomap \<times> error option) \<times> DynamoDBStore" where
  "GetEncryptedDataKeys E fault now s ident =
     (case cache_Get E (keysCache s) now ident of
        Some keys \<Rightarrow> ((keys, None), s)
      | None \<Rightarrow>
          (let s1 = s\<lparr>requests := requests s @ [GetItemInput ident]\<rparr> in
           case GetItemWithContext fault (table s) ident of
             Inl err \<Rightarrow> ((None, Some err), s1)
           | Inr None \<Rightarrow> ((None, None), s1)
           | Inr (Some raw) \<Rightarrow>
               (case UnmarshalMap E raw of
                  Inl err \<Rightarrow> ((None, Some err), s1)
                | Inr it \<Rightarrow>
                    ((Keys it, None),
                     s1\<lparr>keysCache := cache_Set (keysCache s1) now ident (Keys it)\<rparr>))))"

text \<open>
  \<open>SetEncryptedDataKeysConditionally\<close> (lines 85-110). The error of \<open>MarshalMap\<close> is bound to
  \<open>err\<close> and overwritten by the result of \<open>PutItemWithContext\<close> before it is read.
\<close>

definition SetEncryptedDataKeysConditionally ::
  "env \<Rightarrow> error option \<Rightarrow> int \<Rightarrow> DynamoDBStore \<Rightarrow> string \<Rightarrow> gomap
     \<Rightarrow> error option \<times> DynamoDBStore" where
  "SetEncryptedDataKeysConditionally E fault now s ident encryptedKeysMap =
     (let (marshalledItem, err) = MarshalMap E \<lparr>ID = ident, Keys = encryptedKeysMap\<rparr>;
          (err, tbl) = PutItemWithContext fault (table s) marshalledItem;
          s1 = s\<lparr>table := tbl, requests := requests s @ [PutItemInput marshalledItem]\<rparr>
      in case err of
           Some e \<Rightarrow>
             (case e of
                AwsError code msg \<Rightarrow>
                  if code = ErrCodeConditionalCheckFailedException
                  then (Some (IDAlreadyExistsStoreError ident), s1)
                  else (Some e, s1)
              | _ \<Rightarrow> (Some e, s1))
         | None \<Rightarrow>
             (None, s1\<lparr>keysCache := cache_Set (keysCache s1) now ident encryptedKeysMap\<rparr>))"

subsection \<open>What the theorems ask of the marshaller\<close>

text \<open>
  The table files an item under the string value of its \<open>id\<close> attribute, so where a record
  lands depends on what \<open>MarshalMap\<close> made of the struct. \<open>marshalled_key\<close> is that key (if
  any); \<open>keeps_id\<close> says that a storable item is filed under the caller's identifier;
  \<open>round_trips\<close> says that the stored item decodes back to the caller's keys.
\<close>

definition marshalled_key :: "env \<Rightarrow> string \<Rightarrow> gomap \<Rightarrow> string option" where
  "marshalled_key E ident keys = item_key (fst (MarshalMap E \<lparr>ID = ident, Keys = keys\<rparr>))"

definition keeps_id :: "env \<Rightarrow> string \<Rightarrow> gomap \<Rightarrow> bool" where
  "keeps_id E ident keys =
     (case marshalled_key E ident keys of None \<Rightarrow> True | Some k \<Rightarrow> k = ident)"

definition round_trips :: "env \<Rightarrow> string \<Rightarrow> gomap \<Rightarrow> bool" where
  "round_trips E ident keys =
     (case UnmarshalMap E (fst (MarshalMap E \<lparr>ID = ident, Keys = keys\<rparr>)) of
        Inl err \<Rightarrow> False
      | Inr it \<Rightarrow> Keys it = keys)"

subsection \<open>The cache invariant\<close>

text \<open>Every identifier with a cache entry has a record in the table.\<close>

definition cache_sound :: "DynamoDBStore \<Rightarrow> bool" where
  "cache_sound s = (\<forall>k. items (keysCache s) k \<noteq> None \<longrightarrow> table s k \<noteq> None)"

subsection \<open>Sequences of calls\<close>

text \<open>
  A call is one of the two methods with its arguments, the time it is made at and the failure
  of the backend request it would send (\<open>None\<close>: the request reaches the table). \<open>run\<close>
  makes the calls in order, each on the store the previous one left, and collects what the
  caller sees.
\<close>

datatype op = OpGet string | OpSet string gomap

type_synonym call = "error option \<times> int \<times> op"

datatype outcome = GetResult gomap "error option" | SetResult "error option"

fun step :: "env \<Rightarrow> DynamoDBStore \<Rightarrow> call \<Rightarrow> outcome \<times> DynamoDBStore" where
  "step E s (fault, now, OpGet ident) =
     (case GetEncryptedDataKeys E fault now s ident of
        ((keys, err), s') \<Rightarrow> (GetResult keys err, s'))"
| "step E s (fault, now, OpSet ident keys) =
     (case SetEncryptedDataKeysConditionally E fault now s ident keys of
        (err, s') \<Rightarrow> (SetResult err, s'))"

fun run :: "env \<Rightarrow> DynamoDBStore \<Rightarrow> call list \<Rightarrow> outcome list \<times> DynamoDBStore" where
  "run E s [] = ([], s)"
| "run E s (c # cs) =
     (case step E s c of
        (r, s') \<Rightarrow> (case run E s' cs of (rs, s'') \<Rightarrow> (r # rs, s'')))"

text \<open>
  \<open>faithful\<close>: a marshalled item that the table accepts is filed under the caller's identifier
  and decodes back to the caller's keys. \<open>call_ok\<close>: a read's request is answered, a write's
  item is faithful.
\<close>

definition faithful :: "env \<Rightarrow> string \<Rightarrow> gomap \<Rightarrow> bool" where
  "faithful E ident keys =
     (case marshalled_key E ident keys of
        None \<Rightarrow> True
      | Some k \<Rightarrow> k = ident \<and> round_trips E ident keys)"

fun call_ok :: "env \<Rightarrow> call \<Rightarrow> bool" where
  "call_ok E (fault, now, OpGet ident) = (fault = None)"
| "call_ok E (fault, now, OpSet ident keys) = faithful E ident keys"

text \<open>The same method with the same arguments and the same backend behaviour, at any two times.\<close>

definition same_call :: "call \<Rightarrow> call \<Rightarrow> bool" where
  "same_call c' c = (fst c' = fst c \<and> snd (snd c') = snd (snd c))"

text \<open>
  \<open>table_read\<close> is what a read answered by the table alone returns; the cache is coherent
  when every entry holds what \<open>table_read\<close> returns for its identifier.
\<close>

definition table_read :: "env \<Rightarrow> (string \<rightharpoonup> Item) \<Rightarrow> string \<Rightarrow> gomap \<times> error option" where
  "table_read E tbl ident =
     (case tbl ident of
        None \<Rightarrow> (None, None)
      | Some raw \<Rightarrow>
          (case UnmarshalMap E raw of
             Inl err \<Rightarrow> (None, Some err)
           | Inr it \<Rightarrow> (Keys it, None)))"

definition cache_coherent :: "env \<Rightarrow> DynamoDBStore \<Rightarrow> bool" where
  "cache_coherent E s =
     (\<forall>k x t. items (keysCache s) k = Some (x, t) \<longrightarrow>
        table_read E (table s) k = (x, None) \<and> table s k \<noteq> None)"

text \<open>Reads of one identifier, one for each pair of a request failure and a time.\<close>

definition gets :: "string \<Rightarrow> (error option \<times> int) list \<Rightarrow> call list" where
  "gets ident fts = map (\<lambda>(fault, now). (fault, now, OpGet ident)) fts"

subsection \<open>An example environment\<close>

text \<open>
  A marshaller in the manner of \<open>dynamodbattribute\<close>: the two fields of \<open>item\<close> are written
  under the names of their struct tags, an empty string and an empty or nil map as \<open>NULL\<close>, and
  a map with an empty key name is refused, with an error and the empty attribute map. Its
  decoder reads missing and \<open>NULL\<close> attributes as zero values. The expiry rule counts the default
  expiration from the time an entry was stored, and the store is over an empty table. The
  examples of the theorems are evaluated in this environment.
\<close>

definition demo_string :: "string \<Rightarrow> AttributeValue" where
  "demo_string x = (if x = [] then NULL else S x)"

definition demo_MarshalMap :: "item \<Rightarrow> Item \<times> error option" where
  "demo_MarshalMap it =
     (case Keys it of
        None \<Rightarrow> ([''id'' \<mapsto> demo_string (ID it), ''keys'' \<mapsto> NULL], None)
      | Some m \<Rightarrow>
          if m [] \<noteq> None
          then (Map.empty, Some (OtherError ''map key cannot be empty''))
          else ([''id'' \<mapsto> demo_string (ID it),
                 ''keys'' \<mapsto> (if m = Map.empty then NULL
                               else M (\<lambda>k. map_option demo_string (m k)))],
                None))"

definition demo_value :: "AttributeValue option \<Rightarrow> string option" where
  "demo_value v = (case v of Some (S x) \<Rightarrow> Some x | Some NULL \<Rightarrow> Some [] | _ \<Rightarrow> None)"

definition demo_UnmarshalMap :: "Item \<Rightarrow> error + item" where
  "demo_UnmarshalMap raw =
     (case (case raw ''id'' of None \<Rightarrow> Some NULL | v \<Rightarrow> v) of
        Some (S i) \<Rightarrow>
          (case (case raw ''keys'' of None \<Rightarrow> Some NULL | v \<Rightarrow> v) of
             Some (M f) \<Rightarrow> Inr \<lparr>ID = i, Keys = Some (\<lambda>k. demo_value (f k))\<rparr>
           | Some NULL \<Rightarrow> Inr \<lparr>ID = i, Keys = None\<rparr>
           | _ \<Rightarrow> Inl (OtherError ''cannot unmarshal keys''))
      | Some NULL \<Rightarrow>
          (case (case raw ''keys'' of None \<Rightarrow> Some NULL | v \<Rightarrow> v) of
             Some (M f) \<Rightarrow> Inr \<lparr>ID = [], Keys = Some (\<lambda>k. demo_value (f k))\<rparr>
           | Some NULL \<Rightarrow> Inr \<lparr>ID = [], Keys = None\<rparr>
           | _ \<Rightarrow> Inl (OtherError ''cannot unmarshal keys''))
      | _ \<Rightarrow> Inl (OtherError ''cannot unmarshal id''))"

definition demo_env :: env where
  "demo_env = \<lparr>MarshalMap = demo_MarshalMap, UnmarshalMap = demo_UnmarshalMap,
               expired = (\<lambda>d t now. t + sint d < now)\<rparr>"

text \<open>The same marshaller, reporting an error beside the attribute map it built.\<close>

definition demo_env_failing :: env where
  "demo_env_failing =
     demo_env\<lparr>MarshalMap := (\<lambda>it. (fst (demo_MarshalMap it), Some (OtherError ''marshal failed'')))\<rparr>"

definition demo_store :: DynamoDBStore where
  "demo_store = \<lparr>tableName = ''keys'', keysCache = cache_New (5 * Minute) (10 * Minute),
                 table = Map.empty, requests = []\<rparr>"

definition demo_keys1 :: gomap where
  "demo_keys1 = Some [''dek'' \<mapsto> ''ct1'']"

definition demo_keys2 :: gomap where
  "demo_keys2 = Some [''dek'' \<mapsto> ''ct2'']"

text \<open>A map with an empty key name, and the empty map.\<close>

definition demo_keys_noname :: gomap where
  "demo_keys_noname = Some [[] \<mapsto> ''x'']"

definition demo_keys_empty :: gomap where
  "demo_keys_empty = Some Map.empty"

text \<open>
  A request failure, the example store after \<open>demo_keys1\<close> was written at time 0, and a store
  whose table holds a record that does not decode.
\<close>

definition demo_fault :: error where
  "demo_fault = AwsError ''RequestCanceled'' ''request context canceled''"

definition demo_store1 :: DynamoDBStore where
  "demo_store1 =
     snd (SetEncryptedDataKeysConditionally demo_env None 0 demo_store ''tenant-42'' demo_keys1)"

definition demo_corrupt :: DynamoDBStore where
  "demo_corrupt =
     demo_store\<lparr>table := [''tenant-42'' \<mapsto> [''id'' \<mapsto> S ''tenant-42'', ''keys'' \<mapsto> N ''7'']]\<rparr>"

text \<open>
  The configuration of the example store and one with a zero \<open>CacheExpiration\<close>, an expiry rule
  under which a zero default expiration serves no entry at all, and the scenario of
  read, write, read, second write, read on one identifier with the results a caller sees.
\<close>

definition demo_config :: DynamoDBConfig where
  "demo_config = \<lparr>Region = ''eu-west-1'', TableName = ''keys'', CacheExpiration = 5,
                   CacheCleanupInterval = 10\<rparr>"

definition demo_config0 :: DynamoDBConfig where
  "demo_config0 = demo_config\<lparr>CacheExpiration := 0\<rparr>"

definition demo_store0 :: DynamoDBStore where
  "demo_store0 = \<lparr>tableName = ''keys'', keysCache = cache_New 0 (10 * Minute),
                  table = Map.empty, requests = []\<rparr>"

definition zero_disables :: "64 word \<Rightarrow> int \<Rightarrow> int \<Rightarrow> bool" where
  "zero_disables d t now = (d = 0 \<or> t + sint d < now)"

definition demo_calls :: "call list" where
  "demo_calls =
     [(None, 0, OpGet ''tenant-42''),
      (None, 1, OpSet ''tenant-42'' demo_keys1),
      (None, 2, OpGet ''tenant-42''),
      (None, 3, OpSet ''tenant-42'' demo_keys2),
      (None, 4, OpGet ''tenant-42'')]"

definition demo_calls0 :: "call list" where
  "demo_calls0 =
     [(None, 0, OpGet ''tenant-42''),
      (None, 10, OpSet ''tenant-42'' demo_keys1),
      (None, 20, OpGet ''tenant-42''),
      (None, 30, OpSet ''tenant-42'' demo_keys2),
      (None, 40, OpGet ''tenant-42'')]"

definition demo_outcomes :: "outcome list" where
  "demo_outcomes =
     [GetResult None None,
      SetResult None,
      GetResult demo_keys1 None,
      SetResult (Some (IDAlreadyExistsStoreError ''tenant-42'')),
      GetResult demo_keys1 None]"


definition demo_calls_cancelled :: "call list" where
  "demo_calls_cancelled =
     [(None, 0, OpSet ''tenant-42'' demo_keys1),
      (Some demo_fault, 1, OpGet ''tenant-42'')]"

definition demo_calls_empty :: "call list" where
  "demo_calls_empty =
     [(None, 0, OpSet ''tenant-42'' demo_keys_empty),
      (None, 1, OpGet ''tenant-42'')]"

section \<open>Basic facts\<close>

text \<open>The branches of the two methods, one equation each.\<close>

lemma Get_hit:
  "cache_Get E (keysCache s) now ident = Some keys \<Longrightarrow>
   GetEncryptedDataKeys E fault now s ident = ((keys, None), s)"
  by (simp add: GetEncryptedDataKeys_def)

lemma Get_miss_fault:
  "cache_Get E (keysCache s) now ident = None \<Longrightarrow>
   GetEncryptedDataKeys E (Some e) now s ident
     = ((None, Some e), s\<lparr>requests := requests s @ [GetItemInput ident]\<rparr>)"
  by (simp add: GetEncryptedDataKeys_def GetItemWithContext_def)

lemma Get_miss_absent:
  "cache_Get E (keysCache s) now ident = None \<Longrightarrow> table s ident = None \<Longrightarrow>
   GetEncryptedDataKeys E None now s ident
     = ((None, None), s\<lparr>requests := requests s @ [GetItemInput ident]\<rparr>)"
  by (simp add: GetEncryptedDataKeys_def GetItemWithContext_def)

lemma Get_miss_undecodable:
  "cache_Get E (keysCache s) now ident = None \<Longrightarrow> table s ident = Some raw \<Longrightarrow>
   UnmarshalMap E raw = Inl e \<Longrightarrow>
   GetEncryptedDataKeys E None now s ident
     = ((None, Some e), s\<lparr>requests := requests s @ [GetItemInput ident]\<rparr>)"
  by (simp add: GetEncryptedDataKeys_def GetItemWithContext_def)

lemma Get_miss_found:
  "cache_Get E (keysCache s) now ident = None \<Longrightarrow> table s ident = Some raw \<Longrightarrow>
   UnmarshalMap E raw = Inr it \<Longrightarrow>
   GetEncryptedDataKeys E None now s ident
     = ((Keys it, None),
        s\<lparr>requests := requests s @ [GetItemInput ident],
          keysCache := cache_Set (keysCache s) now ident (Keys it)\<rparr>)"
  by (simp add: GetEncryptedDataKeys_def GetItemWithContext_def)

lemma Set_success:
  assumes "SetEncryptedDataKeysConditionally E fault now s ident keys = (None, s1)"
  shows "\<exists>k. fault = None \<and> marshalled_key E ident keys = Some k \<and> table s k = None
           \<and> s1 = s\<lparr>table := (table s)(k \<mapsto> fst (MarshalMap E \<lparr>ID = ident, Keys = keys\<rparr>)),
                    requests := requests s
                      @ [PutItemInput (fst (MarshalMap E \<lparr>ID = ident, Keys = keys\<rparr>))],
                    keysCache := cache_Set (keysCache s) now ident keys\<rparr>"
  using assms
  by (auto simp: SetEncryptedDataKeysConditionally_def PutItemWithContext_def marshalled_key_def
        Let_def split: prod.splits option.splits error.splits if_splits)


lemma cache_Get_after_Set:
  "cache_Get E (cache_Set c t1 ident keys) t2 ident
     = (if expired E (defaultExpiration c) t1 t2 then None else Some keys)"
  by (simp add: cache_Get_def cache_Set_def)

lemma Get_table: "table (snd (GetEncryptedDataKeys E fault now s ident)) = table s"
  by (simp add: GetEncryptedDataKeys_def Let_def split: option.splits sum.splits)

lemma Get_absent_no_entry:
  assumes "table s ident = None" and "items (keysCache s) ident = None"
  shows "snd (GetEncryptedDataKeys E fault now s ident)
           = s\<lparr>requests := requests s @ [GetItemInput ident]\<rparr>"
  using assms
  by (simp add: GetEncryptedDataKeys_def GetItemWithContext_def cache_Get_def Let_def
        split: option.splits)

lemma Get_absent_cache:
  assumes "table s ident = None"
  shows "keysCache (snd (GetEncryptedDataKeys E fault now s ident)) = keysCache s"
  using assms
  by (simp add: GetEncryptedDataKeys_def GetItemWithContext_def Let_def split: option.splits)

lemma snd_step_Get:
  "snd (step E s (fault, now, OpGet ident)) = snd (GetEncryptedDataKeys E fault now s ident)"
  by (simp add: case_prod_beta)

lemma snd_step_Set:
  "snd (step E s (fault, now, OpSet ident keys))
     = snd (SetEncryptedDataKeysConditionally E fault now s ident keys)"
  by (simp add: case_prod_beta)

lemma fst_step_Get:
  "fst (step E s (fault, now, OpGet ident))
     = GetResult (fst (fst (GetEncryptedDataKeys E fault now s ident)))
                 (snd (fst (GetEncryptedDataKeys E fault now s ident)))"
  by (simp add: case_prod_beta)

lemma fst_step_Set:
  "fst (step E s (fault, now, OpSet ident keys))
     = SetResult (fst (SetEncryptedDataKeysConditionally E fault now s ident keys))"
  by (simp add: case_prod_beta)

lemma snd_run_Cons: "snd (run E s (c # cs)) = snd (run E (snd (step E s c)) cs)"
  by (simp add: case_prod_beta)

lemma fst_run_Cons:
  "fst (run E s (c # cs)) = fst (step E s c) # fst (run E (snd (step E s c)) cs)"
  by (simp add: case_prod_beta)

lemma run_gets_absent:
  assumes "table s ident = None" and "items (keysCache s) ident = None"
  shows "snd (run E s (gets ident fts))
           = s\<lparr>requests := requests s @ replicate (length fts) (GetItemInput ident)\<rparr>"
  using assms
proof (induction fts arbitrary: s)
  case Nil
  then show ?case by (simp add: gets_def)
next
  case (Cons ft fts)
  obtain fault now where ft: "ft = (fault, now)" by (cases ft)
  let ?s1 = "s\<lparr>requests := requests s @ [GetItemInput ident]\<rparr>"
  have s1: "snd (step E s (fault, now, OpGet ident)) = ?s1"
    using Cons.prems by (simp only: snd_step_Get Get_absent_no_entry)
  have "snd (run E ?s1 (gets ident fts))
          = ?s1\<lparr>requests := requests ?s1 @ replicate (length fts) (GetItemInput ident)\<rparr>"
    using Cons.prems by (intro Cons.IH) simp_all
  moreover have "gets ident (ft # fts) = (fault, now, OpGet ident) # gets ident fts"
    by (simp add: gets_def ft)
  ultimately show ?case
    by (simp only: snd_run_Cons s1) (simp add: replicate_append_same)
qed

text \<open>
  Coherence of the cache is kept by both methods, and a read from a coherent store returns what
  the table alone would.
\<close>

lemma table_read_expired [simp]: "table_read (E\<lparr>expired := x\<rparr>) = table_read E"
  by (simp add: table_read_def fun_eq_iff split: option.splits sum.splits)

lemma cache_coherent_expired [simp]: "cache_coherent (E\<lparr>expired := x\<rparr>) = cache_coherent E"
  by (simp add: cache_coherent_def fun_eq_iff)

lemma faithful_expired [simp]: "faithful (E\<lparr>expired := x\<rparr>) = faithful E"
  by (simp add: faithful_def marshalled_key_def round_trips_def fun_eq_iff
        split: option.splits sum.splits)

lemma Get_coherent_result:
  assumes "cache_coherent E s"
  shows "fst (GetEncryptedDataKeys E None now s ident) = table_read E (table s) ident"
proof (cases "cache_Get E (keysCache s) now ident")
  case None
  then show ?thesis
    by (simp add: GetEncryptedDataKeys_def GetItemWithContext_def table_read_def Let_def
          split: option.splits sum.splits)
next
  case (Some x)
  then obtain t where "items (keysCache s) ident = Some (x, t)"
    by (auto simp: cache_Get_def split: option.splits if_splits)
  with assms have "table_read E (table s) ident = (x, None)"
    by (simp add: cache_coherent_def)
  with Some show ?thesis by (simp add: Get_hit)
qed

lemma Get_cache_cases:
  "keysCache (snd (GetEncryptedDataKeys E fault now s ident)) = keysCache s
   \<or> (\<exists>raw it. table s ident = Some raw \<and> UnmarshalMap E raw = Inr it
         \<and> keysCache (snd (GetEncryptedDataKeys E fault now s ident))
             = cache_Set (keysCache s) now ident (Keys it))"
  by (simp add: GetEncryptedDataKeys_def GetItemWithContext_def Let_def
        split: option.splits sum.splits)

lemma Get_coherent_pres:
  assumes "cache_coherent E s"
  shows "cache_coherent E (snd (GetEncryptedDataKeys E fault now s ident))"
proof -
  let ?s' = "snd (GetEncryptedDataKeys E fault now s ident)"
  have tb: "table ?s' = table s" by (rule Get_table)
  from Get_cache_cases [of E fault now s ident] show ?thesis
  proof
    assume "keysCache ?s' = keysCache s"
    with assms tb show ?thesis by (simp add: cache_coherent_def)
  next
    assume "\<exists>raw it. table s ident = Some raw \<and> UnmarshalMap E raw = Inr it
              \<and> keysCache ?s' = cache_Set (keysCache s) now ident (Keys it)"
    then obtain raw it where r: "table s ident = Some raw" and u: "UnmarshalMap E raw = Inr it"
      and c: "keysCache ?s' = cache_Set (keysCache s) now ident (Keys it)" by blast
    from r u have rd: "table_read E (table s) ident = (Keys it, None)"
      by (simp add: table_read_def)
    show ?thesis
      unfolding cache_coherent_def tb c
    proof (intro allI impI)
      fix k x t
      assume e: "items (cache_Set (keysCache s) now ident (Keys it)) k = Some (x, t)"
      show "table_read E (table s) k = (x, None) \<and> table s k \<noteq> None"
      proof (cases "k = ident")
        case True
        with e have "x = Keys it" by (simp add: cache_Set_def)
        with True rd r show ?thesis by simp
      next
        case False
        with e have "items (keysCache s) k = Some (x, t)" by (simp add: cache_Set_def)
        with assms show ?thesis by (simp add: cache_coherent_def)
      qed
    qed
  qed
qed

lemma Set_coherent_pres:
  assumes "cache_coherent E s" and "faithful E ident keys"
  shows "cache_coherent E (snd (SetEncryptedDataKeysConditionally E fault now s ident keys))"
proof (cases "fst (SetEncryptedDataKeysConditionally E fault now s ident keys)")
  case (Some e)
  then have "keysCache (snd (SetEncryptedDataKeysConditionally E fault now s ident keys))
               = keysCache s
             \<and> table (snd (SetEncryptedDataKeysConditionally E fault now s ident keys)) = table s"
    by (auto simp: SetEncryptedDataKeysConditionally_def PutItemWithContext_def Let_def
          case_prod_beta split: option.splits error.splits if_splits)
  with assms(1) show ?thesis by (simp add: cache_coherent_def)
next
  case None
  let ?m = "fst (MarshalMap E \<lparr>ID = ident, Keys = keys\<rparr>)"
  from None have "SetEncryptedDataKeysConditionally E fault now s ident keys
      = (None, snd (SetEncryptedDataKeysConditionally E fault now s ident keys))"
    by (simp add: prod_eq_iff)
  from Set_success [OF this] obtain k where
    mk: "marshalled_key E ident keys = Some k" and free: "table s k = None" and
    s1: "snd (SetEncryptedDataKeysConditionally E fault now s ident keys)
           = s\<lparr>table := (table s)(k \<mapsto> ?m),
               requests := requests s @ [PutItemInput ?m],
               keysCache := cache_Set (keysCache s) now ident keys\<rparr>"
    by blast
  from assms(2) mk have kid: "k = ident" and rt: "round_trips E ident keys"
    by (simp_all add: faithful_def)
  from rt have rd: "table_read E ((table s)(ident \<mapsto> ?m)) ident = (keys, None)"
    by (auto simp: round_trips_def table_read_def split: sum.splits)
  show ?thesis
    unfolding s1 kid cache_coherent_def
  proof (intro allI impI)
    fix k' x t
    assume e: "items (keysCache (s\<lparr>table := (table s)(ident \<mapsto> ?m),
                 requests := requests s @ [PutItemInput ?m],
                 keysCache := cache_Set (keysCache s) now ident keys\<rparr>)) k' = Some (x, t)"
    show "table_read E (table (s\<lparr>table := (table s)(ident \<mapsto> ?m),
                 requests := requests s @ [PutItemInput ?m],
                 keysCache := cache_Set (keysCache s) now ident keys\<rparr>)) k' = (x, None)
          \<and> table (s\<lparr>table := (table s)(ident \<mapsto> ?m),
                 requests := requests s @ [PutItemInput ?m],
                 keysCache := cache_Set (keysCache s) now ident keys\<rparr>) k' \<noteq> None"
    proof (cases "k' = ident")
      case True
      with e have "x = keys" by (simp add: cache_Set_def)
      with True rd show ?thesis by simp
    next
      case False
      with e have "items (keysCache s) k' = Some (x, t)" by (simp add: cache_Set_def)
      with assms(1) have "table_read E (table s) k' = (x, None) \<and> table s k' \<noteq> None"
        by (simp add: cache_coherent_def)
      with False show ?thesis by (simp add: table_read_def)
    qed
  qed
qed

lemma Set_result_table:
  assumes "table s' = table s"
  shows "fst (SetEncryptedDataKeysConditionally (E\<lparr>expired := x\<rparr>) fault now' s' ident keys)
           = fst (SetEncryptedDataKeysConditionally E fault now s ident keys)
         \<and> table (snd (SetEncryptedDataKeysConditionally (E\<lparr>expired := x\<rparr>) fault now' s' ident keys))
           = table (snd (SetEncryptedDataKeysConditionally E fault now s ident keys))"
  using assms
  by (simp add: SetEncryptedDataKeysConditionally_def Let_def case_prod_beta
        split: option.splits error.splits)

lemma step_transparent:
  assumes "table s' = table s" and "cache_coherent E s'" and "cache_coherent E s"
      and "call_ok E c" and "same_call c' c"
  shows "fst (step (E\<lparr>expired := x\<rparr>) s' c') = fst (step E s c)
         \<and> table (snd (step (E\<lparr>expired := x\<rparr>) s' c')) = table (snd (step E s c))
         \<and> cache_coherent E (snd (step (E\<lparr>expired := x\<rparr>) s' c'))
         \<and> cache_coherent E (snd (step E s c))"
proof -
  obtain fault now o' where c: "c = (fault, now, o')" by (cases c)
  with assms(5) obtain now' where c': "c' = (fault, now', o')"
    by (cases c') (simp add: same_call_def)
  show ?thesis
  proof (cases o')
    case (OpGet ident)
    with c assms(4) have f: "fault = None" by simp
    have co: "cache_coherent (E\<lparr>expired := x\<rparr>) s'" using assms(2) by simp
    have "fst (GetEncryptedDataKeys (E\<lparr>expired := x\<rparr>) None now' s' ident)
            = fst (GetEncryptedDataKeys E None now s ident)"
      using Get_coherent_result [OF co] Get_coherent_result [OF assms(3)] assms(1) by simp
    moreover have "cache_coherent E
        (snd (GetEncryptedDataKeys (E\<lparr>expired := x\<rparr>) None now' s' ident))"
      using Get_coherent_pres [OF co] by simp
    moreover have "cache_coherent E (snd (GetEncryptedDataKeys E None now s ident))"
      using Get_coherent_pres [OF assms(3)] .
    ultimately show ?thesis
      unfolding c c' OpGet f
      by (simp add: case_prod_beta Get_table assms(1))
  next
    case (OpSet ident keys)
    with c assms(4) have fa: "faithful E ident keys" by simp
    have co: "cache_coherent (E\<lparr>expired := x\<rparr>) s'" using assms(2) by simp
    have fa': "faithful (E\<lparr>expired := x\<rparr>) ident keys" using fa by simp
    have "cache_coherent E
            (snd (SetEncryptedDataKeysConditionally (E\<lparr>expired := x\<rparr>) fault now' s' ident keys))"
      using Set_coherent_pres [OF co fa'] by simp
    moreover have "cache_coherent E
            (snd (SetEncryptedDataKeysConditionally E fault now s ident keys))"
      using Set_coherent_pres [OF assms(3) fa] .
    ultimately show ?thesis
      unfolding c c' OpSet
      using Set_result_table [OF assms(1), where E = E and x = x and fault = fault and now = now
          and now' = now' and ident = ident and keys = keys]
      by (simp add: case_prod_beta)
  qed
qed

lemma run_transparent:
  assumes "list_all2 same_call calls' calls"
      and "table s' = table s" and "cache_coherent E s'" and "cache_coherent E s"
      and "\<forall>c\<in>set calls. call_ok E c"
  shows "fst (run (E\<lparr>expired := x\<rparr>) s' calls') = fst (run E s calls)"
  using assms
proof (induction calls' calls arbitrary: s' s rule: list_all2_induct)
  case Nil
  show ?case by simp
next
  case (Cons c' calls' c calls)
  from Cons.prems have ok: "call_ok E c" and oks: "\<forall>c\<in>set calls. call_ok E c" by simp_all
  note st = step_transparent [OF Cons.prems(1-3) ok Cons.hyps(1), of x]
  from st have "fst (run (E\<lparr>expired := x\<rparr>) (snd (step (E\<lparr>expired := x\<rparr>) s' c')) calls')
                  = fst (run E (snd (step E s c)) calls)"
    by (intro Cons.IH oks) simp_all
  with st show ?case by (simp only: fst_run_Cons)
qed

lemma new_store_coherent:
  assumes "NewDynamoDBStore cfg sess tbl = Inr s"
  shows "cache_coherent E s \<and> table s = tbl"
  using assms
  by (auto simp: NewDynamoDBStore_def cache_New_def cache_coherent_def split: option.splits)

text \<open>The example environment, evaluated.\<close>

lemmas demo_defs = demo_env_def demo_MarshalMap_def demo_UnmarshalMap_def demo_string_def
  demo_value_def demo_store_def
  demo_keys1_def demo_keys2_def cache_New_def

lemma demo_set1_ok:
  "fst (SetEncryptedDataKeysConditionally demo_env None 0 demo_store ''tenant-42'' demo_keys1) = None"
  by (simp add: SetEncryptedDataKeysConditionally_def PutItemWithContext_def item_key_def
        demo_defs)

lemma demo_set1:
  "SetEncryptedDataKeysConditionally demo_env None 0 demo_store ''tenant-42'' demo_keys1
     = (None, snd (SetEncryptedDataKeysConditionally demo_env None 0 demo_store ''tenant-42'' demo_keys1))"
  using demo_set1_ok by (simp add: prod_eq_iff)

lemma demo_marshal_error_ignored:
  "fst (SetEncryptedDataKeysConditionally demo_env_failing None 0 demo_store ''tenant-42''
          demo_keys1) = None
   \<and> table (snd (SetEncryptedDataKeysConditionally demo_env_failing None 0 demo_store
          ''tenant-42'' demo_keys1)) ''tenant-42'' \<noteq> None"
  by (simp add: SetEncryptedDataKeysConditionally_def PutItemWithContext_def item_key_def
        demo_env_failing_def demo_defs)

lemma demo_keeps_id: "keeps_id demo_env ''tenant-42'' demo_keys1"
  by (simp add: keeps_id_def marshalled_key_def item_key_def demo_defs)



lemma demo_not_expired: "\<not> expired demo_env (defaultExpiration (keysCache demo_store)) 0 1"
  by (simp add: demo_defs Minute_def)

lemma demo_new: "NewDynamoDBStore demo_config None Map.empty = Inr demo_store"
  by (simp add: NewDynamoDBStore_def demo_config_def demo_store_def)

lemma demo_new0: "NewDynamoDBStore demo_config0 None Map.empty = Inr demo_store0"
  by (simp add: NewDynamoDBStore_def demo_config0_def demo_config_def demo_store0_def)

lemma demo_faithful1: "faithful demo_env ''tenant-42'' demo_keys1"
  by (auto simp: faithful_def marshalled_key_def item_key_def round_trips_def demo_defs fun_eq_iff)

lemma demo_faithful2: "faithful demo_env ''tenant-42'' demo_keys2"
  by (auto simp: faithful_def marshalled_key_def item_key_def round_trips_def demo_defs fun_eq_iff)

lemma demo_calls_ok: "list_all (call_ok demo_env) demo_calls"
  by (simp add: demo_calls_def demo_faithful1 demo_faithful2)

lemmas op_defs = GetEncryptedDataKeys_def SetEncryptedDataKeysConditionally_def
  GetItemWithContext_def PutItemWithContext_def item_key_def cache_Get_def cache_Set_def
  ErrCodeConditionalCheckFailedException_def

lemma demo_run: "fst (run demo_env demo_store demo_calls) = demo_outcomes"
  by (simp add: demo_calls_def demo_outcomes_def op_defs demo_defs Minute_def)

lemma demo_requests:
  "length (requests (snd (run demo_env demo_store demo_calls))) = 3"
  by (simp add: demo_calls_def op_defs demo_defs Minute_def)

lemma demo_same_calls: "list_all2 same_call demo_calls0 demo_calls"
  by (simp add: demo_calls0_def demo_calls_def same_call_def)

lemma demo_requests0:
  "length (requests (snd (run (demo_env\<lparr>expired := zero_disables\<rparr>) demo_store0 demo_calls0))) = 5"
  by (simp add: demo_calls0_def op_defs demo_defs demo_store0_def zero_disables_def)

section \<open>The claims\<close>




text \<open>
  C2 (read-your-write). After \<open>SetEncryptedDataKeysConditionally\<close> has succeeded,
  \<open>GetEncryptedDataKeys\<close> for the same identifier returns exactly the keys that were written.
  While the cache entry made by the write is live, the read is served by it: the store is left as
  it was, with no request sent, whatever the backend would have answered. Once the entry has
  expired the read goes to the table and returns the same keys, if the request succeeds and the
  record is filed under the identifier and decodes back.
\<close>

theorem read_your_write:
  assumes ok: "SetEncryptedDataKeysConditionally E f1 t1 s ident keys = (None, s1)"
      and rd: "\<not> expired E (defaultExpiration (keysCache s)) t1 t2
               \<or> (f2 = None \<and> keeps_id E ident keys \<and> round_trips E ident keys)"
  shows "fst (GetEncryptedDataKeys E f2 t2 s1 ident) = (keys, None)
         \<and> (\<not> expired E (defaultExpiration (keysCache s)) t1 t2 \<longrightarrow>
              snd (GetEncryptedDataKeys E f2 t2 s1 ident) = s1)"
proof -
  let ?m = "fst (MarshalMap E \<lparr>ID = ident, Keys = keys\<rparr>)"
  from Set_success [OF ok] obtain k where
    mk: "marshalled_key E ident keys = Some k" and
    s1: "s1 = s\<lparr>table := (table s)(k \<mapsto> ?m),
                 requests := requests s @ [PutItemInput ?m],
                 keysCache := cache_Set (keysCache s) t1 ident keys\<rparr>"
    by blast
  have c1: "keysCache s1 = cache_Set (keysCache s) t1 ident keys" using s1 by simp
  show ?thesis
  proof (cases "expired E (defaultExpiration (keysCache s)) t1 t2")
    case False
    then have "cache_Get E (keysCache s1) t2 ident = Some keys"
      by (simp add: c1 cache_Get_after_Set)
    then show ?thesis by (simp add: Get_hit)
  next
    case True
    with rd have f2: "f2 = None" and ki: "keeps_id E ident keys"
      and rt: "round_trips E ident keys" by simp_all
    from ki mk have "k = ident" by (simp add: keeps_id_def)
    then have tbl: "table s1 ident = Some ?m" using s1 by simp
    from True have miss: "cache_Get E (keysCache s1) t2 ident = None"
      by (simp add: c1 cache_Get_after_Set)
    from rt obtain it where u: "UnmarshalMap E ?m = Inr it" and kk: "Keys it = keys"
      by (auto simp: round_trips_def split: sum.splits)
    show ?thesis using Get_miss_found [OF miss tbl u] kk f2 True by simp
  qed
qed

theorem read_your_write_witness:
  "fst (SetEncryptedDataKeysConditionally demo_env None 0 demo_store ''tenant-42'' demo_keys1) = None
   \<and> \<not> expired demo_env (defaultExpiration (keysCache demo_store)) 0 1
   \<and> fst (GetEncryptedDataKeys demo_env (Some demo_fault) 1 demo_store1 ''tenant-42'')
       = (demo_keys1, None)
   \<and> snd (GetEncryptedDataKeys demo_env (Some demo_fault) 1 demo_store1 ''tenant-42'')
       = demo_store1"
proof -
  have s: "SetEncryptedDataKeysConditionally demo_env None 0 demo_store ''tenant-42'' demo_keys1
             = (None, demo_store1)"
    using demo_set1 by (simp add: demo_store1_def)
  have rd: "\<not> expired demo_env (defaultExpiration (keysCache demo_store)) 0 1
            \<or> (Some demo_fault = None \<and> keeps_id demo_env ''tenant-42'' demo_keys1
                \<and> round_trips demo_env ''tenant-42'' demo_keys1)"
    using demo_not_expired by simp
  from read_your_write [OF s rd]
  show ?thesis using demo_set1_ok demo_not_expired by simp
qed

text \<open>
  C3 (the write ignores the cache). Run from two stores that differ only in \<open>keysCache\<close>,
  \<open>SetEncryptedDataKeysConditionally\<close> returns the same error or success, leaves the same table
  and has sent the same requests: the cache is never read, the conditional insert alone decides.
\<close>

theorem set_ignores_cache:
  "fst (SetEncryptedDataKeysConditionally E fault now (s\<lparr>keysCache := c1\<rparr>) ident keys)
     = fst (SetEncryptedDataKeysConditionally E fault now (s\<lparr>keysCache := c2\<rparr>) ident keys)
   \<and> table (snd (SetEncryptedDataKeysConditionally E fault now (s\<lparr>keysCache := c1\<rparr>) ident keys))
     = table (snd (SetEncryptedDataKeysConditionally E fault now (s\<lparr>keysCache := c2\<rparr>) ident keys))
   \<and> requests (snd (SetEncryptedDataKeysConditionally E fault now (s\<lparr>keysCache := c1\<rparr>) ident keys))
     = requests (snd (SetEncryptedDataKeysConditionally E fault now (s\<lparr>keysCache := c2\<rparr>) ident keys))"
  by (simp add: SetEncryptedDataKeysConditionally_def Let_def
           split: prod.splits option.splits error.splits)

text \<open>
  C4 (an unknown identifier is not an error). If the table has no record of the identifier and
  the cache serves no entry for it, \<open>GetEncryptedDataKeys\<close>, its read answered by the table,
  returns the nil map and no error, and leaves cache and table as they were.
\<close>

theorem get_unknown_absent:
  assumes "table s ident = None" and "cache_Get E (keysCache s) now ident = None"
  shows "fst (GetEncryptedDataKeys E None now s ident) = (None, None)
         \<and> keysCache (snd (GetEncryptedDataKeys E None now s ident)) = keysCache s
         \<and> table (snd (GetEncryptedDataKeys E None now s ident)) = table s"
  using Get_miss_absent [OF assms(2) assms(1)] by simp

theorem get_unknown_absent_witness:
  "table demo_store ''tenant-42'' = None
   \<and> cache_Get demo_env (keysCache demo_store) 0 ''tenant-42'' = None
   \<and> fst (GetEncryptedDataKeys demo_env None 0 demo_store ''tenant-42'') = (None, None)
   \<and> keysCache (snd (GetEncryptedDataKeys demo_env None 0 demo_store ''tenant-42''))
       = keysCache demo_store
   \<and> table (snd (GetEncryptedDataKeys demo_env None 0 demo_store ''tenant-42''))
       = table demo_store"
proof -
  have t: "table demo_store ''tenant-42'' = None" by (simp add: demo_store_def)
  have c: "cache_Get demo_env (keysCache demo_store) 0 ''tenant-42'' = None"
    by (simp add: cache_Get_def demo_store_def cache_New_def)
  from get_unknown_absent [OF t c] show ?thesis using t c by simp
qed

text \<open>
  C5 (no cache mutation on failure). If \<open>GetEncryptedDataKeys\<close> returns an error, the cache
  after the call is the cache before it; likewise if \<open>SetEncryptedDataKeysConditionally\<close>
  returns any error, \<open>IDAlreadyExistsStoreError\<close> included.
\<close>

theorem failure_keeps_cache:
  "(snd (fst (GetEncryptedDataKeys E fault now s ident)) \<noteq> None \<longrightarrow>
      keysCache (snd (GetEncryptedDataKeys E fault now s ident)) = keysCache s)
   \<and> (fst (SetEncryptedDataKeysConditionally E fault now s ident keys) \<noteq> None \<longrightarrow>
      keysCache (snd (SetEncryptedDataKeysConditionally E fault now s ident keys)) = keysCache s)"
  by (simp add: GetEncryptedDataKeys_def SetEncryptedDataKeysConditionally_def Let_def
           split: prod.splits option.splits error.splits sum.splits)

theorem failure_keeps_cache_witness:
  "snd (fst (GetEncryptedDataKeys demo_env (Some demo_fault) 0 demo_store ''tenant-42'')) \<noteq> None
   \<and> keysCache (snd (GetEncryptedDataKeys demo_env (Some demo_fault) 0 demo_store ''tenant-42''))
       = keysCache demo_store
   \<and> fst (SetEncryptedDataKeysConditionally demo_env (Some demo_fault) 0 demo_store
            ''tenant-42'' demo_keys1) \<noteq> None
   \<and> keysCache (snd (SetEncryptedDataKeysConditionally demo_env (Some demo_fault) 0 demo_store
            ''tenant-42'' demo_keys1)) = keysCache demo_store"
proof -
  have g: "snd (fst (GetEncryptedDataKeys demo_env (Some demo_fault) 0 demo_store ''tenant-42''))
             \<noteq> None"
    by (simp add: GetEncryptedDataKeys_def GetItemWithContext_def cache_Get_def demo_defs)
  have p: "fst (SetEncryptedDataKeysConditionally demo_env (Some demo_fault) 0 demo_store
             ''tenant-42'' demo_keys1) \<noteq> None"
    by (simp add: SetEncryptedDataKeysConditionally_def PutItemWithContext_def demo_fault_def
          ErrCodeConditionalCheckFailedException_def demo_defs)
  from failure_keeps_cache [of demo_env "Some demo_fault" 0 demo_store "''tenant-42''" demo_keys1]
  show ?thesis using g p by simp
qed

text \<open>
  C6 (a record that does not decode is an error). If the read reaches the table, the table holds
  a record of the identifier and \<open>UnmarshalMap\<close> fails on it, \<open>GetEncryptedDataKeys\<close> returns
  that error, not the absent result.
\<close>

theorem decode_failure_is_error:
  assumes "cache_Get E (keysCache s) now ident = None"
      and "table s ident = Some raw"
      and "UnmarshalMap E raw = Inl e"
  shows "fst (GetEncryptedDataKeys E None now s ident) = (None, Some e)"
  using Get_miss_undecodable [OF assms] by simp

theorem decode_failure_is_error_witness:
  "cache_Get demo_env (keysCache demo_corrupt) 0 ''tenant-42'' = None
   \<and> table demo_corrupt ''tenant-42'' = Some [''id'' \<mapsto> S ''tenant-42'', ''keys'' \<mapsto> N ''7'']
   \<and> UnmarshalMap demo_env [''id'' \<mapsto> S ''tenant-42'', ''keys'' \<mapsto> N ''7'']
       = Inl (OtherError ''cannot unmarshal keys'')
   \<and> fst (GetEncryptedDataKeys demo_env None 0 demo_corrupt ''tenant-42'')
       = (None, Some (OtherError ''cannot unmarshal keys''))"
proof -
  have c: "cache_Get demo_env (keysCache demo_corrupt) 0 ''tenant-42'' = None"
    by (simp add: cache_Get_def demo_corrupt_def demo_store_def cache_New_def)
  have t: "table demo_corrupt ''tenant-42'' = Some [''id'' \<mapsto> S ''tenant-42'', ''keys'' \<mapsto> N ''7'']"
    by (simp add: demo_corrupt_def)
  have u: "UnmarshalMap demo_env [''id'' \<mapsto> S ''tenant-42'', ''keys'' \<mapsto> N ''7'']
             = Inl (OtherError ''cannot unmarshal keys'')"
    by (simp add: demo_env_def demo_UnmarshalMap_def)
  from decode_failure_is_error [OF c t u] show ?thesis using c t u by simp
qed

text \<open>
  C7 (cache soundness). That every identifier with a cache entry has a record in the table holds
  of a new store and is preserved by \<open>GetEncryptedDataKeys\<close> and by
  \<open>SetEncryptedDataKeysConditionally\<close>, the latter given that the marshalled item is filed under
  the caller's identifier: an entry is added only after the table returned a record for the
  identifier or accepted one.
\<close>

theorem cache_sound_preserved:
  "(NewDynamoDBStore cfg sess tbl = Inr s0 \<longrightarrow> cache_sound s0)
   \<and> (cache_sound s \<longrightarrow> cache_sound (snd (GetEncryptedDataKeys E fault now s ident)))
   \<and> (cache_sound s \<and> keeps_id E ident keys \<longrightarrow>
        cache_sound (snd (SetEncryptedDataKeysConditionally E fault now s ident keys)))"
proof (intro conjI impI)
  assume "NewDynamoDBStore cfg sess tbl = Inr s0"
  then show "cache_sound s0"
    by (auto simp: NewDynamoDBStore_def cache_New_def cache_sound_def split: option.splits)
next
  assume "cache_sound s"
  then show "cache_sound (snd (GetEncryptedDataKeys E fault now s ident))"
    by (auto simp: GetEncryptedDataKeys_def GetItemWithContext_def cache_sound_def cache_Set_def
          Let_def split: option.splits sum.splits)
next
  assume "cache_sound s \<and> keeps_id E ident keys"
  then show "cache_sound (snd (SetEncryptedDataKeysConditionally E fault now s ident keys))"
    by (auto simp: SetEncryptedDataKeysConditionally_def PutItemWithContext_def cache_sound_def
          cache_Set_def keeps_id_def marshalled_key_def Let_def
          split: prod.splits option.splits error.splits if_splits)
qed

theorem cache_sound_preserved_witness:
  "NewDynamoDBStore \<lparr>Region = ''eu-west-1'', TableName = ''keys'', CacheExpiration = 5,
                      CacheCleanupInterval = 10\<rparr> None Map.empty = Inr demo_store
   \<and> cache_sound demo_store
   \<and> keeps_id demo_env ''tenant-42'' demo_keys1
   \<and> cache_sound (snd (SetEncryptedDataKeysConditionally demo_env None 0 demo_store
                          ''tenant-42'' demo_keys1))
   \<and> cache_sound (snd (GetEncryptedDataKeys demo_env None 1 demo_store1 ''tenant-42''))"
proof -
  have n: "NewDynamoDBStore \<lparr>Region = ''eu-west-1'', TableName = ''keys'', CacheExpiration = 5,
             CacheCleanupInterval = 10\<rparr> None Map.empty = Inr demo_store"
    by (simp add: NewDynamoDBStore_def demo_store_def)
  note p = cache_sound_preserved [of _ None Map.empty demo_store demo_store demo_env None 0
             "''tenant-42''" demo_keys1]
  note q = cache_sound_preserved [of _ None Map.empty demo_store demo_store1 demo_env None 1
             "''tenant-42''" demo_keys1]
  from p n have a: "cache_sound demo_store" by blast
  from p a demo_keeps_id
  have b: "cache_sound (snd (SetEncryptedDataKeysConditionally demo_env None 0 demo_store
                          ''tenant-42'' demo_keys1))" by blast
  then have "cache_sound demo_store1" by (simp add: demo_store1_def)
  with q have c: "cache_sound (snd (GetEncryptedDataKeys demo_env None 1 demo_store1 ''tenant-42''))"
    by blast
  from n a b c demo_keeps_id show ?thesis by simp
qed

text \<open>
  C8 (cache transparency), as amended. Two stores are created over the same table, with any two
  configurations (so one \<open>CacheExpiration\<close> may be 0 and the other positive), and the same calls
  are made on both, at any times and under any two expiry rules of the cache (so one may serve
  no entry at all, every read then going to the table). If every read request is answered and
  every written item is faithful, the caller sees the same results in both runs. The example
  counts the requests: five without the cache, three with it.
\<close>

theorem cache_transparency:
  assumes "NewDynamoDBStore cfg0 None tbl = Inr s0"
      and "NewDynamoDBStore cfg None tbl = Inr s"
      and "list_all2 same_call calls0 calls"
      and "\<forall>c\<in>set calls. call_ok E c"
  shows "fst (run (E\<lparr>expired := x\<rparr>) s0 calls0) = fst (run E s calls)"
proof -
  from new_store_coherent [OF assms(1)] new_store_coherent [OF assms(2)]
  have "table s0 = table s" and "cache_coherent E s0" and "cache_coherent E s" by simp_all
  with assms(3) show ?thesis using assms(4) by (rule run_transparent)
qed

theorem cache_transparency_witness:
  "NewDynamoDBStore demo_config0 None Map.empty = Inr demo_store0
   \<and> NewDynamoDBStore demo_config None Map.empty = Inr demo_store
   \<and> list_all2 same_call demo_calls0 demo_calls
   \<and> list_all (call_ok demo_env) demo_calls
   \<and> fst (run (demo_env\<lparr>expired := zero_disables\<rparr>) demo_store0 demo_calls0) = demo_outcomes
   \<and> fst (run demo_env demo_store demo_calls) = demo_outcomes
   \<and> length (requests (snd (run (demo_env\<lparr>expired := zero_disables\<rparr>) demo_store0 demo_calls0))) = 5
   \<and> length (requests (snd (run demo_env demo_store demo_calls))) = 3"
proof -
  have ok: "\<forall>c\<in>set demo_calls. call_ok demo_env c"
    using demo_calls_ok by (simp add: list_all_iff)
  from cache_transparency [OF demo_new0 demo_new demo_same_calls ok, of zero_disables]
  show ?thesis
    using demo_new0 demo_new demo_same_calls demo_calls_ok demo_run demo_requests demo_requests0
    by simp
qed

text \<open>
  The claim as written, for every sequence of calls, fails. After a write, a read whose request
  is cancelled returns the written keys from the cache, and the failure when no entry is served.
  After a write of the empty map, a read returns the empty map from the cache, and the nil map,
  which is the absent result, from the table.
\<close>

theorem cache_transparency_counterexample:
  "NewDynamoDBStore demo_config0 None Map.empty = Inr demo_store0
   \<and> NewDynamoDBStore demo_config None Map.empty = Inr demo_store
   \<and> fst (run (demo_env\<lparr>expired := zero_disables\<rparr>) demo_store0 demo_calls_cancelled)
       = [SetResult None, GetResult None (Some demo_fault)]
   \<and> fst (run demo_env demo_store demo_calls_cancelled)
       = [SetResult None, GetResult demo_keys1 None]
   \<and> fst (run (demo_env\<lparr>expired := zero_disables\<rparr>) demo_store0 demo_calls_empty)
       = [SetResult None, GetResult None None]
   \<and> fst (run demo_env demo_store demo_calls_empty)
       = [SetResult None, GetResult demo_keys_empty None]
   \<and> demo_keys_empty \<noteq> None"
proof -
  have a: "fst (run (demo_env\<lparr>expired := zero_disables\<rparr>) demo_store0 demo_calls_cancelled)
             = [SetResult None, GetResult None (Some demo_fault)]"
    by (simp add: demo_calls_cancelled_def op_defs demo_defs demo_store0_def zero_disables_def)
  have b: "fst (run demo_env demo_store demo_calls_cancelled)
             = [SetResult None, GetResult demo_keys1 None]"
    by (simp add: demo_calls_cancelled_def op_defs demo_defs Minute_def)
  have c: "fst (run (demo_env\<lparr>expired := zero_disables\<rparr>) demo_store0 demo_calls_empty)
             = [SetResult None, GetResult None None]"
    by (simp add: demo_calls_empty_def demo_keys_empty_def op_defs demo_defs demo_store0_def
          zero_disables_def)
  have d: "fst (run demo_env demo_store demo_calls_empty)
             = [SetResult None, GetResult demo_keys_empty None]"
    by (simp add: demo_calls_empty_def demo_keys_empty_def op_defs demo_defs Minute_def)
  have e: "demo_keys_empty \<noteq> None" by (simp add: demo_keys_empty_def)
  from a b c d e demo_new0 demo_new show ?thesis by simp
qed

text \<open>
  C9 (the marshalling error is dropped). Whatever error \<open>MarshalMap\<close> returns beside its
  attribute map, \<open>SetEncryptedDataKeysConditionally\<close> sends the conditional insert with that
  attribute map, leaves the table as the insert leaves it, and returns what the insert returned
  (its conditional failure as \<open>IDAlreadyExistsStoreError\<close>, any other error as it is, success as
  success); the marshaller's error never reaches the caller, and another error in its place
  changes nothing.
\<close>

theorem marshal_error_discarded:
  assumes "MarshalMap E \<lparr>ID = ident, Keys = keys\<rparr> = (m, merr)"
  shows "fst (SetEncryptedDataKeysConditionally E fault now s ident keys)
           = (case fst (PutItemWithContext fault (table s) m) of
                None \<Rightarrow> None
              | Some (AwsError code msg) \<Rightarrow>
                  if code = ErrCodeConditionalCheckFailedException
                  then Some (IDAlreadyExistsStoreError ident)
                  else Some (AwsError code msg)
              | Some e \<Rightarrow> Some e)
         \<and> table (snd (SetEncryptedDataKeysConditionally E fault now s ident keys))
           = snd (PutItemWithContext fault (table s) m)
         \<and> requests (snd (SetEncryptedDataKeysConditionally E fault now s ident keys))
           = requests s @ [PutItemInput m]
         \<and> SetEncryptedDataKeysConditionally
              (E\<lparr>MarshalMap := (\<lambda>it. (fst (MarshalMap E it), merr' it))\<rparr>) fault now s ident keys
           = SetEncryptedDataKeysConditionally E fault now s ident keys"
  using assms
  by (simp add: SetEncryptedDataKeysConditionally_def Let_def case_prod_beta
           split: option.splits error.splits)

theorem marshal_error_discarded_witness:
  "MarshalMap demo_env \<lparr>ID = ''tenant-42'', Keys = demo_keys_noname\<rparr>
     = (Map.empty, Some (OtherError ''map key cannot be empty''))
   \<and> fst (SetEncryptedDataKeysConditionally demo_env None 0 demo_store ''tenant-42''
            demo_keys_noname)
       = Some (AwsError ''ValidationException'' ''missing key id'')
   \<and> table (snd (SetEncryptedDataKeysConditionally demo_env None 0 demo_store ''tenant-42''
            demo_keys_noname)) = Map.empty
   \<and> requests (snd (SetEncryptedDataKeysConditionally demo_env None 0 demo_store ''tenant-42''
            demo_keys_noname)) = [PutItemInput Map.empty]"
proof -
  have m: "MarshalMap demo_env \<lparr>ID = ''tenant-42'', Keys = demo_keys_noname\<rparr>
             = (Map.empty, Some (OtherError ''map key cannot be empty''))"
    by (simp add: demo_env_def demo_MarshalMap_def demo_keys_noname_def)
  have p: "PutItemWithContext None (table demo_store) Map.empty
             = (Some (AwsError ''ValidationException'' ''missing key id''), Map.empty)"
    by (simp add: PutItemWithContext_def item_key_def demo_store_def)
  have r: "requests demo_store = []" by (simp add: demo_store_def)
  from marshal_error_discarded [OF m, where fault = None and s = demo_store and now = 0]
  show ?thesis using m p r by (simp add: ErrCodeConditionalCheckFailedException_def)
qed

text \<open>
  C10 (no negative caching). For an identifier with no record in the table,
  \<open>GetEncryptedDataKeys\<close> leaves the cache as it was. So if the cache had no entry for the
  identifier, any number of further reads of it, at any times and whether their requests fail or
  not, change nothing but the list of requests, to which each adds one read of the table.
\<close>

theorem not_found_not_cached:
  assumes "table s ident = None"
  shows "keysCache (snd (GetEncryptedDataKeys E fault now s ident)) = keysCache s
         \<and> (items (keysCache s) ident = None \<longrightarrow>
              snd (run E s (gets ident fts))
                = s\<lparr>requests := requests s @ replicate (length fts) (GetItemInput ident)\<rparr>)"
  using Get_absent_cache [OF assms] run_gets_absent [OF assms] by simp

theorem not_found_not_cached_witness:
  "table demo_store ''tenant-42'' = None
   \<and> items (keysCache demo_store) ''tenant-42'' = None
   \<and> keysCache (snd (GetEncryptedDataKeys demo_env None 0 demo_store ''tenant-42''))
       = keysCache demo_store
   \<and> snd (run demo_env demo_store
             (gets ''tenant-42'' [(None, 0), (Some demo_fault, 1), (None, 2)]))
       = demo_store\<lparr>requests := [GetItemInput ''tenant-42'', GetItemInput ''tenant-42'',
                                  GetItemInput ''tenant-42'']\<rparr>"
proof -
  have t: "table demo_store ''tenant-42'' = None" by (simp add: demo_store_def)
  have c: "items (keysCache demo_store) ''tenant-42'' = None"
    by (simp add: demo_store_def cache_New_def)
  have r: "requests demo_store = []" by (simp add: demo_store_def)
  from not_found_not_cached [OF t, of demo_env None 0 "[(None, 0), (Some demo_fault, 1), (None, 2)]"]
  show ?thesis using t c r by (simp add: numeral_3_eq_3)
qed

end
